theory Spec2Isabelle
  imports Complex_Main "HOL-Library.Word" "HOL-Library.Monad_Syntax"
begin

section \<open>Poisson sampling of rocRAND (rocrand\_poisson.h)\<close>

text \<open>
  The device header \<^verbatim>\<open>library/include/rocrand_poisson.h\<close> samples the Poisson
  distribution from a per-thread generator state. Its functions are templates over the
  state type, so the model is polymorphic in a state type \<open>'s\<close>.

  Conventions of the embedding.
  \<^item> The two draw primitives \<^verbatim>\<open>rocrand_uniform_double(state)\<close> and
    \<^verbatim>\<open>rocrand_normal_double(state)\<close> live in other headers. They are parameters
    \<open>U\<close> and \<open>N\<close> of type \<open>'s \<Rightarrow> real \<times> 's\<close>: the value drawn and the advanced state.
    A draw and the argument \<open>lambda\<close> are finite doubles, given by their values.
  \<^item> The arithmetic of \<^verbatim>\<open>double\<close> inside the three samplers of
    \<open>poisson_distribution\<close> is a parameter \<open>M\<close>, a record of the operations of the machine
    and of the C library on a type \<open>'d\<close> of doubles. Nothing is assumed of their rounding
    or of their results at zero, at infinity or at NaN, so what is proved of these samplers
    holds of binary64 arithmetic with any C library.
  \<^item> The iterative sampler \<open>poisson_itr\<close> is read over the reals: no rounding, no
    infinities, no NaN.
  \<^item> \<^verbatim>\<open>unsigned int\<close> is \<open>32 word\<close>; \<^verbatim>\<open>int\<close> is an integer whose overflow
    is the outcome \<open>SignedOverflow\<close>.
  \<^item> A conversion from \<^verbatim>\<open>double\<close> to \<^verbatim>\<open>unsigned int\<close> whose truncated operand
    is not representable is undefined in C++; it is an outcome of its own.
  \<^item> A loop without a bound is a \<^theory_text>\<open>partial_function\<close> in the option monad:
    \<open>None\<close> means that the call does not return.
\<close>

subsection \<open>Types and primitive operations\<close>

type_synonym 's draw = "'s \<Rightarrow> real \<times> 's"

datatype undefined_behaviour =
  NegativeToUnsigned | TooLargeForUnsigned | NotANumberToUnsigned | SignedOverflow

type_synonym uint_result = "undefined_behaviour + 32 word"

text \<open>The operations on doubles that the samplers use. \<open>d_in r\<close> is the double that
  denotes the real \<open>r\<close>: the double itself when \<open>r\<close> is the value of a double, the double
  chosen by the compiler when \<open>r\<close> is a literal of the source. \<open>d_lt\<close> and \<open>d_le\<close> are
  the comparisons \<^verbatim>\<open><\<close> and \<^verbatim>\<open><=\<close>; \<^verbatim>\<open>a > b\<close> is \<open>d_lt b a\<close>. \<open>d_trunc\<close> is the
  \<^verbatim>\<open>unsigned int\<close> that a double truncates to when that value is representable.\<close>

record 'd machine =
  d_in :: "real \<Rightarrow> 'd"
  d_neg :: "'d \<Rightarrow> 'd"
  d_add :: "'d \<Rightarrow> 'd \<Rightarrow> 'd"
  d_sub :: "'d \<Rightarrow> 'd \<Rightarrow> 'd"
  d_mul :: "'d \<Rightarrow> 'd \<Rightarrow> 'd"
  d_div :: "'d \<Rightarrow> 'd \<Rightarrow> 'd"
  d_exp :: "'d \<Rightarrow> 'd"
  d_log :: "'d \<Rightarrow> 'd"
  d_sqrt :: "'d \<Rightarrow> 'd"
  d_floor :: "'d \<Rightarrow> 'd"
  d_round :: "'d \<Rightarrow> 'd"
  d_lgamma :: "'d \<Rightarrow> 'd"
  d_lt :: "'d \<Rightarrow> 'd \<Rightarrow> bool"
  d_le :: "'d \<Rightarrow> 'd \<Rightarrow> bool"
  d_trunc :: "'d \<Rightarrow> 32 word"

text \<open>\<^verbatim>\<open>static_cast<unsigned int>(d)\<close>: truncation towards zero, defined when the
  truncated value lies in \<open>0 .. 2^32 - 1\<close>, that is when \<open>- 1 < d < 2^32\<close>. A NaN
  compares with nothing, itself included.\<close>

definition static_cast_uint :: "'d machine \<Rightarrow> 'd \<Rightarrow> uint_result" where
  "static_cast_uint M d =
     (if d_le M d (d_in M (- 1)) then Inl NegativeToUnsigned
      else if d_le M (d_in M (2 ^ 32)) d then Inl TooLargeForUnsigned
      else if \<not> d_le M d d then Inl NotANumberToUnsigned
      else Inr (d_trunc M d))"


definition INT_MAX :: int where
  "INT_MAX = 2 ^ 31 - 1"

definition lambda_threshold_small :: real where
  "lambda_threshold_small = 64"

definition lambda_threshold_huge :: real where
  "lambda_threshold_huge = 4000"

subsection \<open>Knuth's method\<close>

text \<open>The \<^verbatim>\<open>do ... while (product > limit)\<close> loop of \<^verbatim>\<open>poisson_distribution_small\<close>;
  the counter \<open>k\<close> is an \<^verbatim>\<open>unsigned int\<close>. The loop yields the counter and the state at
  its exit.\<close>

partial_function (option) small_loop ::
  "'d machine \<Rightarrow> 's draw \<Rightarrow> 'd \<Rightarrow> 32 word \<Rightarrow> 'd \<Rightarrow> 's \<Rightarrow> (32 word \<times> 's) option" where
  "small_loop M U limit k product s =
     (let k = k + 1;
          (u, s) = U s;
          product = d_mul M product (d_in M u)
      in if d_lt M limit product then small_loop M U limit k product s
         else Some (k, s))"

definition poisson_distribution_small ::
  "'d machine \<Rightarrow> 's draw \<Rightarrow> real \<Rightarrow> 's \<Rightarrow> (uint_result \<times> 's) option" where
  "poisson_distribution_small M U lambda s =
     (let limit = d_exp M (d_neg M (d_in M lambda))
      in map_option (\<lambda>(k, s). (Inr (k - 1), s)) (small_loop M U limit 0 (d_in M 1) s))"

subsection \<open>Atkinson's rejection method PA\<close>

definition log_factorial :: "'d machine \<Rightarrow> 'd \<Rightarrow> 'd" where
  "log_factorial M n =
     (if d_le M n (d_in M 1) then d_in M 0 else d_lgamma M (d_add M n (d_in M 1)))"

text \<open>The \<^verbatim>\<open>while (true)\<close> loop of \<^verbatim>\<open>poisson_distribution_large\<close>; \<^verbatim>\<open>continue\<close>
  and a failed acceptance test both start the next iteration.\<close>

partial_function (option) large_loop ::
  "'d machine \<Rightarrow> 's draw \<Rightarrow> 'd \<Rightarrow> 'd \<Rightarrow> 'd \<Rightarrow> 'd \<Rightarrow> 's \<Rightarrow> (uint_result \<times> 's) option" where
  "large_loop M U beta alpha k log_lambda s =
     (let (u, s) = U s;
          x = d_div M (d_sub M alpha
                (d_log M (d_div M (d_sub M (d_in M 1) (d_in M u)) (d_in M u)))) beta;
          n = d_floor M (d_add M x (d_in M (1 / 2)))
      in if d_lt M n (d_in M 0) then large_loop M U beta alpha k log_lambda s
         else
           let (v, s) = U s;
               y = d_sub M alpha (d_mul M beta x);
               t = d_add M (d_in M 1) (d_exp M y);
               lhs = d_add M y (d_log M (d_div M (d_in M v) (d_mul M t t)));
               rhs = d_sub M (d_add M k (d_mul M n log_lambda)) (log_factorial M n)
           in if d_le M lhs rhs then Some (static_cast_uint M n, s)
              else large_loop M U beta alpha k log_lambda s)"

text \<open>\<^verbatim>\<open>ROCRAND_PI_DOUBLE\<close> is a macro of another header, the double that denotes
  \<open>pi\<close>.\<close>

definition poisson_distribution_large ::
  "'d machine \<Rightarrow> 's draw \<Rightarrow> real \<Rightarrow> 's \<Rightarrow> (uint_result \<times> 's) option" where
  "poisson_distribution_large M U lambda s =
     (let c = d_sub M (d_in M 0.767) (d_div M (d_in M 3.36) (d_in M lambda));
          beta = d_div M (d_in M pi) (d_sqrt M (d_mul M (d_in M 3) (d_in M lambda)));
          alpha = d_mul M beta (d_in M lambda);
          k = d_sub M (d_sub M (d_log M c) (d_in M lambda)) (d_log M beta);
          log_lambda = d_log M (d_in M lambda)
      in large_loop M U beta alpha k log_lambda s)"

subsection \<open>Normal approximation\<close>

definition poisson_distribution_huge ::
  "'d machine \<Rightarrow> 's draw \<Rightarrow> real \<Rightarrow> 's \<Rightarrow> uint_result \<times> 's" where
  "poisson_distribution_huge M N lambda s =
     (let (n, s) = N s
      in (static_cast_uint M
            (d_round M (d_add M (d_mul M (d_sqrt M (d_in M lambda)) (d_in M n)) (d_in M lambda))),
          s))"

subsection \<open>The standard dispatcher\<close>

definition poisson_distribution ::
  "'d machine \<Rightarrow> 's draw \<Rightarrow> 's draw \<Rightarrow> real \<Rightarrow> 's \<Rightarrow> (uint_result \<times> 's) option" where
  "poisson_distribution M U N lambda s =
     (if lambda < lambda_threshold_small then poisson_distribution_small M U lambda s
      else if lambda \<le> lambda_threshold_huge then poisson_distribution_large M U lambda s
      else Some (poisson_distribution_huge M N lambda s))"

subsection \<open>The iterative sampler in chunks of 500\<close>

text \<open>The inner loop \<^verbatim>\<open>while (u > y) { k++; x *= lambda / k; y += x; }\<close>. The counter is
  an \<^verbatim>\<open>int\<close>, so the loop is bounded by the increments left before \<open>INT_MAX\<close>.\<close>

function itr_inner ::
  "real \<Rightarrow> real \<Rightarrow> int \<Rightarrow> real \<Rightarrow> real \<Rightarrow> undefined_behaviour + (int \<times> real \<times> real)" where
  "itr_inner u lambda k x y =
     (if u > y then
        (if INT_MAX \<le> k then Inl SignedOverflow
         else
           let k = k + 1;
               x = x * (lambda / real_of_int k);
               y = y + x
           in itr_inner u lambda k x y)
      else Inr (k, x, y))"
  by pat_completeness auto
termination
  by (relation "measure (\<lambda>(u, lambda, k, x, y). nat (INT_MAX - k))") auto

declare itr_inner.simps [simp del]

text \<open>One pass through the body of the outer \<^verbatim>\<open>do ... while\<close> loop. The local \<open>L\<close> is
  assigned before it is read, so it is a result of the pass and not an argument. The
  arguments \<open>upow\<close> and \<open>ex\<close> are the two locals computed once before the loop.\<close>

definition itr_body ::
  "real \<Rightarrow> real \<Rightarrow> real \<Rightarrow> real \<Rightarrow> real \<Rightarrow> real \<Rightarrow> int \<Rightarrow> int \<Rightarrow>
   undefined_behaviour + (real \<times> real \<times> real \<times> int \<times> int)" where
  "itr_body u lambda upow ex x y k pow =
     (let L = (if lambda > upow then ex else exp (real_of_int pow - lambda));
          x = x * L;
          y = y * L
      in if INT_MAX - 500 < pow then Inl SignedOverflow
         else
           let pow = pow + 500
           in case itr_inner u lambda k x y of
                Inl e \<Rightarrow> Inl e
              | Inr (k, x, y) \<Rightarrow> Inr (L, x, y, k, pow))"

function itr_outer ::
  "real \<Rightarrow> real \<Rightarrow> real \<Rightarrow> real \<Rightarrow> real \<Rightarrow> real \<Rightarrow> int \<Rightarrow> int \<Rightarrow> undefined_behaviour + int" where
  "itr_outer u lambda upow ex x y k pow =
     (case itr_body u lambda upow ex x y k pow of
        Inl e \<Rightarrow> Inl e
      | Inr (L, x, y, k, pow) \<Rightarrow>
          if real_of_int pow < lambda then itr_outer u lambda upow ex x y k pow
          else Inr k)"
  by pat_completeness auto
termination
  by (relation "measure (\<lambda>(u, lambda, upow, ex, x, y, k, pow). nat (INT_MAX - pow))")
    (auto simp: itr_body_def Let_def split: if_splits sum.splits)

declare itr_outer.simps [simp del]

text \<open>The returned \<^verbatim>\<open>int k\<close> is converted to \<^verbatim>\<open>unsigned int\<close> modulo \<open>2^32\<close>.\<close>

definition poisson_itr :: "'s draw \<Rightarrow> real \<Rightarrow> 's \<Rightarrow> uint_result \<times> 's" where
  "poisson_itr U lambda s =
     (let x = 1; y = 1; k = 0; pow = 0;
          (u, s) = U s;
          upow = real_of_int pow + 500;
          ex = exp (- 500)
      in (map_sum id word_of_int (itr_outer u lambda upow ex x y k pow), s))"

subsection \<open>The chunked dispatcher\<close>

text \<open>\<^verbatim>\<open>_poisson_distribution\<close> in the source; an Isabelle name cannot start with an
  underscore.\<close>

definition underscore_poisson_distribution ::
  "'d machine \<Rightarrow> 's draw \<Rightarrow> 's draw \<Rightarrow> real \<Rightarrow> 's \<Rightarrow> uint_result \<times> 's" where
  "underscore_poisson_distribution M U N lambda s =
     (if lambda < 1000 then poisson_itr U lambda s
      else poisson_distribution_huge M N lambda s)"

subsection \<open>The public overloads\<close>

text \<open>\<^verbatim>\<open>rocrand_poisson\<close> is overloaded on the generator state; each overload receives the
  draw primitives of its generator.\<close>

definition rocrand_poisson_philox4x32_10 ::
  "'d machine \<Rightarrow> 's draw \<Rightarrow> 's draw \<Rightarrow> real \<Rightarrow> 's \<Rightarrow> (uint_result \<times> 's) option" where
  "rocrand_poisson_philox4x32_10 M U N lambda state = poisson_distribution M U N lambda state"

definition rocrand_poisson_mrg32k3a ::
  "'d machine \<Rightarrow> 's draw \<Rightarrow> 's draw \<Rightarrow> real \<Rightarrow> 's \<Rightarrow> (uint_result \<times> 's) option" where
  "rocrand_poisson_mrg32k3a M U N lambda state = poisson_distribution M U N lambda state"

definition rocrand_poisson_xorwow ::
  "'d machine \<Rightarrow> 's draw \<Rightarrow> 's draw \<Rightarrow> real \<Rightarrow> 's \<Rightarrow> (uint_result \<times> 's) option" where
  "rocrand_poisson_xorwow M U N lambda state = poisson_distribution M U N lambda state"

definition rocrand_poisson_mtgp32 ::
  "'d machine \<Rightarrow> 's draw \<Rightarrow> 's draw \<Rightarrow> real \<Rightarrow> 's \<Rightarrow> uint_result \<times> 's" where
  "rocrand_poisson_mtgp32 M U N lambda state = underscore_poisson_distribution M U N lambda state"

definition rocrand_poisson_sobol32 ::
  "'d machine \<Rightarrow> 's draw \<Rightarrow> 's draw \<Rightarrow> real \<Rightarrow> 's \<Rightarrow> uint_result \<times> 's" where
  "rocrand_poisson_sobol32 M U N lambda state = underscore_poisson_distribution M U N lambda state"

datatype uint4 = Uint4 (uint4_x: uint_result) (uint4_y: uint_result) (uint4_z: uint_result)
  (uint4_w: uint_result)

text \<open>The braced initialiser of \<^verbatim>\<open>rocrand_poisson4\<close> evaluates its four calls from left
  to right.\<close>

definition rocrand_poisson4 ::
  "'d machine \<Rightarrow> 's draw \<Rightarrow> 's draw \<Rightarrow> real \<Rightarrow> 's \<Rightarrow> (uint4 \<times> 's) option" where
  "rocrand_poisson4 M U N lambda state =
     do {
       (a, state) \<leftarrow> poisson_distribution M U N lambda state;
       (b, state) \<leftarrow> poisson_distribution M U N lambda state;
       (c, state) \<leftarrow> poisson_distribution M U N lambda state;
       (d, state) \<leftarrow> poisson_distribution M U N lambda state;
       Some (Uint4 a b c d, state)
     }"

section \<open>Notions of the specification\<close>

text \<open>The definitions of this section are written from the words of the specification,
  to be compared with the functions of the source above.\<close>

subsection \<open>Sequential calls on one state\<close>

text \<open>\<open>n\<close> successive calls of a sampler \<open>f\<close>, each on the state left by the one before;
  the results are listed in the order of the calls.\<close>

fun sequential_calls :: "('s \<Rightarrow> ('a \<times> 's) option) \<Rightarrow> nat \<Rightarrow> 's \<Rightarrow> ('a list \<times> 's) option" where
  "sequential_calls f 0 s = Some ([], s)"
| "sequential_calls f (Suc n) s =
     (case f s of
        None \<Rightarrow> None
      | Some (a, s') \<Rightarrow>
          (case sequential_calls f n s' of
             None \<Rightarrow> None
           | Some (as, s'') \<Rightarrow> Some (a # as, s'')))"

subsection \<open>The sequence of uniform draws\<close>

text \<open>The state after \<open>n\<close> uniform draws, the value of draw number \<open>i\<close> (counted from
  0), the product of the first \<open>n\<close> draws as the machine multiplies them, starting from 1,
  and the statement that \<open>k\<close> is the number of draws at which this product first fails to
  exceed \<open>limit\<close>.\<close>

fun draw_state :: "'s draw \<Rightarrow> 's \<Rightarrow> nat \<Rightarrow> 's" where
  "draw_state U s 0 = s"
| "draw_state U s (Suc n) = snd (U (draw_state U s n))"

definition draw_value :: "'s draw \<Rightarrow> 's \<Rightarrow> nat \<Rightarrow> real" where
  "draw_value U s i = fst (U (draw_state U s i))"

fun running_product :: "'d machine \<Rightarrow> 's draw \<Rightarrow> 's \<Rightarrow> nat \<Rightarrow> 'd" where
  "running_product M U s 0 = d_in M 1"
| "running_product M U s (Suc n) =
     d_mul M (running_product M U s n) (d_in M (draw_value U s n))"

definition first_failure :: "'d machine \<Rightarrow> 's draw \<Rightarrow> 's \<Rightarrow> 'd \<Rightarrow> nat \<Rightarrow> bool" where
  "first_failure M U s limit k \<longleftrightarrow>
     1 \<le> k \<and> \<not> d_lt M limit (running_product M U s k) \<and>
     (\<forall>j\<in>{1..<k}. d_lt M limit (running_product M U s j))"

subsection \<open>Atkinson's algorithm PA as the specification words it\<close>

definition atkinson_c :: "'d machine \<Rightarrow> real \<Rightarrow> 'd" where
  "atkinson_c M lambda = d_sub M (d_in M 0.767) (d_div M (d_in M 3.36) (d_in M lambda))"

definition atkinson_beta :: "'d machine \<Rightarrow> real \<Rightarrow> 'd" where
  "atkinson_beta M lambda =
     d_div M (d_in M pi) (d_sqrt M (d_mul M (d_in M 3) (d_in M lambda)))"

definition atkinson_alpha :: "'d machine \<Rightarrow> real \<Rightarrow> 'd" where
  "atkinson_alpha M lambda = d_mul M (atkinson_beta M lambda) (d_in M lambda)"

definition atkinson_k :: "'d machine \<Rightarrow> real \<Rightarrow> 'd" where
  "atkinson_k M lambda =
     d_sub M (d_sub M (d_log M (atkinson_c M lambda)) (d_in M lambda))
       (d_log M (atkinson_beta M lambda))"

definition atkinson_x :: "'d machine \<Rightarrow> real \<Rightarrow> real \<Rightarrow> 'd" where
  "atkinson_x M lambda u =
     d_div M (d_sub M (atkinson_alpha M lambda)
                (d_log M (d_div M (d_sub M (d_in M 1) (d_in M u)) (d_in M u))))
       (atkinson_beta M lambda)"

definition atkinson_n :: "'d machine \<Rightarrow> real \<Rightarrow> real \<Rightarrow> 'd" where
  "atkinson_n M lambda u = d_floor M (d_add M (atkinson_x M lambda u) (d_in M (1 / 2)))"

definition spec_log_factorial :: "'d machine \<Rightarrow> 'd \<Rightarrow> 'd" where
  "spec_log_factorial M n =
     (if d_le M n (d_in M 1) then d_in M 0 else d_lgamma M (d_add M n (d_in M 1)))"

definition atkinson_accepts :: "'d machine \<Rightarrow> real \<Rightarrow> real \<Rightarrow> real \<Rightarrow> bool" where
  "atkinson_accepts M lambda u v =
     (let y = d_sub M (atkinson_alpha M lambda)
                (d_mul M (atkinson_beta M lambda) (atkinson_x M lambda u));
          t = d_add M (d_in M 1) (d_exp M y)
      in d_le M (d_add M y (d_log M (d_div M (d_in M v) (d_mul M t t))))
           (d_sub M (d_add M (atkinson_k M lambda)
                       (d_mul M (atkinson_n M lambda u) (d_log M (d_in M lambda))))
              (spec_log_factorial M (atkinson_n M lambda u))))"

inductive atkinson_returns ::
  "'d machine \<Rightarrow> 's draw \<Rightarrow> real \<Rightarrow> 's \<Rightarrow> uint_result \<times> 's \<Rightarrow> bool"
  for M :: "'d machine" and U :: "'s draw" and lambda :: real where
  restart:
    "U s = (u, s1) \<Longrightarrow> d_lt M (atkinson_n M lambda u) (d_in M 0) \<Longrightarrow>
     atkinson_returns M U lambda s1 r \<Longrightarrow>
     atkinson_returns M U lambda s r"
| accept:
    "U s = (u, s1) \<Longrightarrow> \<not> d_lt M (atkinson_n M lambda u) (d_in M 0) \<Longrightarrow> U s1 = (v, s2) \<Longrightarrow>
     atkinson_accepts M lambda u v \<Longrightarrow>
     atkinson_returns M U lambda s (static_cast_uint M (atkinson_n M lambda u), s2)"
| reject:
    "U s = (u, s1) \<Longrightarrow> \<not> d_lt M (atkinson_n M lambda u) (d_in M 0) \<Longrightarrow> U s1 = (v, s2) \<Longrightarrow>
     \<not> atkinson_accepts M lambda u v \<Longrightarrow> atkinson_returns M U lambda s2 r \<Longrightarrow>
     atkinson_returns M U lambda s r"

code_pred (modes: i \<Rightarrow> i \<Rightarrow> i \<Rightarrow> i \<Rightarrow> o \<Rightarrow> bool) atkinson_returns .

section \<open>Arithmetic without rounding\<close>

text \<open>
  An interpretation of the operations for the examples: the reals extended by the two
  infinities and NaN, with the results that IEEE 754 and the C library fix at zero, at
  infinity and at NaN, and with every finite result exact. It is not binary64: it has one
  zero, no rounding and no overflow, and \<open>lgamma\<close> is given at the integers from 1 on
  only, where it is the logarithm of a factorial. It decides as binary64 does wherever no
  decision of the code hangs on a rounding, and the examples below are chosen so. The
  theorems on the samplers are stated for every interpretation \<open>M\<close> and do not rest on
  this one.
\<close>

datatype xreal = Finite real | PosInf | NegInf | NaN

text \<open>\<^verbatim>\<open>round\<close> of the C library: to the nearest integer, halves away from zero.\<close>

definition c_round :: "real \<Rightarrow> real" where
  "c_round d = (if 0 \<le> d then of_int \<lfloor>d + 1 / 2\<rfloor> else - of_int \<lfloor>- d + 1 / 2\<rfloor>)"

fun x_neg :: "xreal \<Rightarrow> xreal" where
  "x_neg (Finite a) = Finite (- a)"
| "x_neg PosInf = NegInf"
| "x_neg NegInf = PosInf"
| "x_neg NaN = NaN"

fun x_add :: "xreal \<Rightarrow> xreal \<Rightarrow> xreal" where
  "x_add (Finite a) (Finite b) = Finite (a + b)"
| "x_add NaN b = NaN"
| "x_add a NaN = NaN"
| "x_add PosInf NegInf = NaN"
| "x_add NegInf PosInf = NaN"
| "x_add PosInf b = PosInf"
| "x_add a PosInf = PosInf"
| "x_add NegInf b = NegInf"
| "x_add a NegInf = NegInf"

definition x_sub :: "xreal \<Rightarrow> xreal \<Rightarrow> xreal" where
  "x_sub a b = x_add a (x_neg b)"

fun x_mul :: "xreal \<Rightarrow> xreal \<Rightarrow> xreal" where
  "x_mul (Finite a) (Finite b) = Finite (a * b)"
| "x_mul NaN b = NaN"
| "x_mul a NaN = NaN"
| "x_mul (Finite a) b = (if a = 0 then NaN else if 0 < a then b else x_neg b)"
| "x_mul a (Finite b) = (if b = 0 then NaN else if 0 < b then a else x_neg a)"
| "x_mul PosInf b = b"
| "x_mul NegInf b = x_neg b"

fun x_div :: "xreal \<Rightarrow> xreal \<Rightarrow> xreal" where
  "x_div (Finite a) (Finite b) =
     (if b \<noteq> 0 then Finite (a / b)
      else if a = 0 then NaN else if 0 < a then PosInf else NegInf)"
| "x_div NaN b = NaN"
| "x_div a NaN = NaN"
| "x_div (Finite a) b = Finite 0"
| "x_div a (Finite b) = (if 0 \<le> b then a else x_neg a)"
| "x_div a b = NaN"

fun x_exp :: "xreal \<Rightarrow> xreal" where
  "x_exp (Finite a) = Finite (exp a)"
| "x_exp PosInf = PosInf"
| "x_exp NegInf = Finite 0"
| "x_exp NaN = NaN"

fun x_log :: "xreal \<Rightarrow> xreal" where
  "x_log (Finite a) = (if 0 < a then Finite (ln a) else if a = 0 then NegInf else NaN)"
| "x_log PosInf = PosInf"
| "x_log NegInf = NaN"
| "x_log NaN = NaN"

fun x_sqrt :: "xreal \<Rightarrow> xreal" where
  "x_sqrt (Finite a) = (if 0 \<le> a then Finite (sqrt a) else NaN)"
| "x_sqrt PosInf = PosInf"
| "x_sqrt NegInf = NaN"
| "x_sqrt NaN = NaN"

fun x_floor :: "xreal \<Rightarrow> xreal" where
  "x_floor (Finite a) = Finite (of_int \<lfloor>a\<rfloor>)"
| "x_floor a = a"

fun x_round :: "xreal \<Rightarrow> xreal" where
  "x_round (Finite a) = Finite (c_round a)"
| "x_round a = a"

fun x_lgamma :: "xreal \<Rightarrow> xreal" where
  "x_lgamma (Finite a) = Finite (ln (fact (nat \<lfloor>a\<rfloor> - 1)))"
| "x_lgamma PosInf = PosInf"
| "x_lgamma NegInf = PosInf"
| "x_lgamma NaN = NaN"

fun x_lt :: "xreal \<Rightarrow> xreal \<Rightarrow> bool" where
  "x_lt (Finite a) (Finite b) \<longleftrightarrow> a < b"
| "x_lt NaN b \<longleftrightarrow> False"
| "x_lt a NaN \<longleftrightarrow> False"
| "x_lt a NegInf \<longleftrightarrow> False"
| "x_lt NegInf b \<longleftrightarrow> True"
| "x_lt PosInf b \<longleftrightarrow> False"
| "x_lt a PosInf \<longleftrightarrow> True"

fun x_le :: "xreal \<Rightarrow> xreal \<Rightarrow> bool" where
  "x_le (Finite a) (Finite b) \<longleftrightarrow> a \<le> b"
| "x_le NaN b \<longleftrightarrow> False"
| "x_le a NaN \<longleftrightarrow> False"
| "x_le NegInf b \<longleftrightarrow> True"
| "x_le a PosInf \<longleftrightarrow> True"
| "x_le a b \<longleftrightarrow> False"

fun x_trunc :: "xreal \<Rightarrow> 32 word" where
  "x_trunc (Finite a) = word_of_int (if a < 0 then 0 else \<lfloor>a\<rfloor>)"
| "x_trunc a = 0"

definition exact_arithmetic :: "xreal machine" where
  "exact_arithmetic =
     \<lparr>d_in = Finite, d_neg = x_neg, d_add = x_add, d_sub = x_sub, d_mul = x_mul,
      d_div = x_div, d_exp = x_exp, d_log = x_log, d_sqrt = x_sqrt, d_floor = x_floor,
      d_round = x_round, d_lgamma = x_lgamma, d_lt = x_lt, d_le = x_le, d_trunc = x_trunc\<rparr>"

section \<open>Auxiliary facts on the primitive operations\<close>

lemma exact_arithmetic_simps [simp]:
  "d_in exact_arithmetic = Finite" "d_neg exact_arithmetic = x_neg"
  "d_add exact_arithmetic = x_add" "d_sub exact_arithmetic = x_sub"
  "d_mul exact_arithmetic = x_mul" "d_div exact_arithmetic = x_div"
  "d_exp exact_arithmetic = x_exp" "d_log exact_arithmetic = x_log"
  "d_sqrt exact_arithmetic = x_sqrt" "d_floor exact_arithmetic = x_floor"
  "d_round exact_arithmetic = x_round" "d_lgamma exact_arithmetic = x_lgamma"
  "d_lt exact_arithmetic = x_lt" "d_le exact_arithmetic = x_le"
  "d_trunc exact_arithmetic = x_trunc"
  by (simp_all add: exact_arithmetic_def)

lemma exact_cast:
  "static_cast_uint exact_arithmetic (Finite a) =
     (if a \<le> - 1 then Inl NegativeToUnsigned
      else if 2 ^ 32 \<le> a then Inl TooLargeForUnsigned
      else Inr (word_of_int (if a < 0 then 0 else \<lfloor>a\<rfloor>)))"
  by (simp add: static_cast_uint_def)

lemma exact_cast_in_range:
  "0 \<le> i \<Longrightarrow> i < 2 ^ 32 \<Longrightarrow>
   static_cast_uint exact_arithmetic (Finite (of_int i)) = Inr (word_of_int i)"
  by (simp add: exact_cast)

lemma c_round_of_int [simp]: "c_round (of_int i) = of_int i"
  by (simp add: c_round_def)

lemma exact_huge:
  "0 \<le> lambda \<Longrightarrow>
   poisson_distribution_huge exact_arithmetic N lambda s =
     (static_cast_uint exact_arithmetic (Finite (c_round (sqrt lambda * fst (N s) + lambda))),
      snd (N s))"
  by (simp add: poisson_distribution_huge_def split_beta)

lemma exact_huge_integer:
  "0 \<le> lambda \<Longrightarrow> sqrt lambda * fst (N s) + lambda = of_int i \<Longrightarrow> 0 \<le> i \<Longrightarrow> i < 2 ^ 32 \<Longrightarrow>
   poisson_distribution_huge exact_arithmetic N lambda s = (Inr (word_of_int i), snd (N s))"
  by (simp add: exact_huge exact_cast_in_range)

lemma exact_small_zero_draw:
  "fst (U s) = 0 \<Longrightarrow>
   poisson_distribution_small exact_arithmetic U lambda s = Some (Inr 0, snd (U s))"
  unfolding poisson_distribution_small_def Let_def
  by (subst small_loop.simps) (simp add: Let_def split_beta not_less less_eq_real_def)

lemma itr_inner_exit: "\<not> u > y \<Longrightarrow> itr_inner u lambda k x y = Inr (k, x, y)"
  by (simp add: itr_inner.simps)

lemma itr_zero_draw_small_lambda:
  "itr_outer 0 1 500 (exp (- 500)) 1 1 0 0 = Inr 0"
  by (simp add: itr_outer.simps itr_body_def itr_inner_exit INT_MAX_def Let_def)

section \<open>The dispatchers\<close>

text \<open>
  Claim C1. For every \<open>lambda\<close> the standard dispatcher \<open>poisson_distribution\<close> routes by
  \<open>lambda\<close> alone: below 64 it is the call of the small-lambda sampler (Knuth), from 64 to
  4000 inclusive the call of the large-lambda sampler (Atkinson), above 4000 the call of
  the huge-lambda sampler (normal approximation); in each case the result and the state
  left by the invoked sampler are returned as they are.
\<close>

theorem poisson_distribution_routes:
  "(lambda < 64 \<longrightarrow>
      poisson_distribution M U N lambda s = poisson_distribution_small M U lambda s) \<and>
   (64 \<le> lambda \<and> lambda \<le> 4000 \<longrightarrow>
      poisson_distribution M U N lambda s = poisson_distribution_large M U lambda s) \<and>
   (4000 < lambda \<longrightarrow>
      poisson_distribution M U N lambda s = Some (poisson_distribution_huge M N lambda s))"
  by (simp add: poisson_distribution_def lambda_threshold_small_def lambda_threshold_huge_def)

theorem poisson_distribution_routes_witness:
  "((1::real) < 64 \<and>
      poisson_distribution exact_arithmetic (\<lambda>s::nat. (0, Suc s)) (\<lambda>s. (0, Suc s)) 1 0 =
      Some (Inr 0, 1)) \<and>
   ((64::real) \<le> 100 \<and> (100::real) \<le> 4000 \<and>
      poisson_distribution exact_arithmetic (\<lambda>s::nat. (0, Suc s)) (\<lambda>s. (0, Suc s)) 100 0 =
      poisson_distribution_large exact_arithmetic (\<lambda>s::nat. (0, Suc s)) 100 0) \<and>
   ((4000::real) < 10000 \<and>
      poisson_distribution exact_arithmetic (\<lambda>s::nat. (0, Suc s)) (\<lambda>s. (0, Suc s)) 10000 0 =
      Some (Inr 10000, 1))"
proof -
  have huge: "poisson_distribution_huge exact_arithmetic (\<lambda>s::nat. (0, Suc s)) 10000 0 =
      (Inr 10000, 1)"
    using exact_huge_integer [of 10000 "\<lambda>s::nat. (0, Suc s)" 0 10000] by simp
  show ?thesis
    using poisson_distribution_routes
        [of 1 exact_arithmetic "\<lambda>s::nat. (0, Suc s)" "\<lambda>s. (0, Suc s)" 0]
      poisson_distribution_routes
        [of 100 exact_arithmetic "\<lambda>s::nat. (0, Suc s)" "\<lambda>s. (0, Suc s)" 0]
      poisson_distribution_routes
        [of 10000 exact_arithmetic "\<lambda>s::nat. (0, Suc s)" "\<lambda>s. (0, Suc s)" 0]
    by (simp add: exact_small_zero_draw huge)
qed

text \<open>
  Claim C2. For every \<open>lambda\<close> the chunked dispatcher \<^verbatim>\<open>_poisson_distribution\<close>, which
  the MTGP32 and SOBOL32 overloads of \<^verbatim>\<open>rocrand_poisson\<close> call, is the call of
  \<open>poisson_itr\<close> when \<open>lambda < 1000\<close> and the call of the huge-lambda sampler when
  \<open>lambda\<close> is at or above 1000, in particular at \<open>lambda = 1000\<close>; the result of the
  invoked sampler is returned as it is.
\<close>

theorem underscore_poisson_distribution_routes:
  "(lambda < 1000 \<longrightarrow>
      underscore_poisson_distribution M U N lambda s = poisson_itr U lambda s) \<and>
   (1000 \<le> lambda \<longrightarrow>
      underscore_poisson_distribution M U N lambda s = poisson_distribution_huge M N lambda s) \<and>
   underscore_poisson_distribution M U N 1000 s = poisson_distribution_huge M N 1000 s \<and>
   rocrand_poisson_mtgp32 M U N lambda s = underscore_poisson_distribution M U N lambda s \<and>
   rocrand_poisson_sobol32 M U N lambda s = underscore_poisson_distribution M U N lambda s"
  by (simp add: underscore_poisson_distribution_def rocrand_poisson_mtgp32_def
      rocrand_poisson_sobol32_def)

theorem underscore_poisson_distribution_routes_witness:
  "((1::real) < 1000 \<and>
      rocrand_poisson_mtgp32 exact_arithmetic (\<lambda>s::nat. (0, Suc s)) (\<lambda>s. (0, Suc s)) 1 0 =
      (Inr 0, 1)) \<and>
   ((1000::real) \<le> 1000 \<and>
      rocrand_poisson_sobol32 exact_arithmetic (\<lambda>s::nat. (0, Suc s)) (\<lambda>s. (0, Suc s)) 1000 0 =
      (Inr 1000, 1))"
proof -
  have huge: "poisson_distribution_huge exact_arithmetic (\<lambda>s::nat. (0, Suc s)) 1000 0 =
      (Inr 1000, 1)"
    using exact_huge_integer [of 1000 "\<lambda>s::nat. (0, Suc s)" 0 1000] by simp
  show ?thesis
    using underscore_poisson_distribution_routes
        [of 1 exact_arithmetic "\<lambda>s::nat. (0, Suc s)" "\<lambda>s. (0, Suc s)" 0]
      underscore_poisson_distribution_routes
        [of 1000 exact_arithmetic "\<lambda>s::nat. (0, Suc s)" "\<lambda>s. (0, Suc s)" 0]
    by (simp add: poisson_itr_def itr_zero_draw_small_lambda huge)
qed

section \<open>The huge-lambda sampler\<close>

text \<open>
  Claim C7. For every \<open>lambda\<close> routed to it (above 4000 by the standard dispatcher, at or
  above 1000 by the chunked one), \<open>poisson_distribution_huge\<close> takes exactly one
  standard-normal draw \<open>z\<close>, takes no uniform draw, and returns
  \<open>round (sqrt lambda * z + lambda)\<close> converted to \<^verbatim>\<open>unsigned int\<close>: the state left
  is the state after that one normal draw, the uniform primitive does not occur in the
  result, and the value is the conversion of the machine's \<^verbatim>\<open>round\<close> of the machine's
  sum of the machine's product of the machine's square root of \<open>lambda\<close> with \<open>z\<close>, and
  \<open>lambda\<close>. In the examples the operand of \<^verbatim>\<open>round\<close> is \<open>4128.5\<close>, \<open>- 0.25\<close> and
  \<open>- 0.5\<close>, each computed without rounding in binary64 as well; the results are 4129, 0
  and the undefined conversion of \<open>- 1\<close>.
\<close>

theorem poisson_distribution_huge_one_normal_draw:
  "poisson_distribution_huge M N lambda s =
     (static_cast_uint M
        (d_round M
           (d_add M (d_mul M (d_sqrt M (d_in M lambda)) (d_in M (fst (N s)))) (d_in M lambda))),
      snd (N s)) \<and>
   (4000 < lambda \<longrightarrow>
      poisson_distribution M U N lambda s =
        Some (static_cast_uint M
           (d_round M
              (d_add M (d_mul M (d_sqrt M (d_in M lambda)) (d_in M (fst (N s)))) (d_in M lambda))),
         snd (N s))) \<and>
   (1000 \<le> lambda \<longrightarrow>
      underscore_poisson_distribution M U N lambda s =
        (static_cast_uint M
           (d_round M
              (d_add M (d_mul M (d_sqrt M (d_in M lambda)) (d_in M (fst (N s)))) (d_in M lambda))),
         snd (N s)))"
  by (simp add: poisson_distribution_huge_def poisson_distribution_def
      underscore_poisson_distribution_def lambda_threshold_small_def lambda_threshold_huge_def
      split_beta)

theorem poisson_distribution_huge_one_normal_draw_witness:
  "(4000::real) < 4096 \<and> (1000::real) \<le> 4096 \<and>
   poisson_distribution exact_arithmetic (\<lambda>s::nat. (1 / 2, s + 100)) (\<lambda>s. (65 / 128, Suc s))
     4096 0 = Some (Inr 4129, 1) \<and>
   underscore_poisson_distribution exact_arithmetic (\<lambda>s::nat. (1 / 2, s + 100))
     (\<lambda>s. (- 64 - 1 / 256, Suc s)) 4096 0 = (Inr 0, 1) \<and>
   poisson_distribution exact_arithmetic (\<lambda>s::nat. (1 / 2, s + 100))
     (\<lambda>s. (- 64 - 1 / 128, Suc s)) 4096 0 = Some (Inl NegativeToUnsigned, 1)"
proof -
  have root: "sqrt 4096 = 64"
    using real_sqrt_abs [of 64] by simp
  have up: "c_round (8257 / 2) = 4129"
    by (simp add: c_round_def)
  have zero: "c_round (- (1 / 4)) = 0"
    by (simp add: c_round_def)
  have down: "c_round (- (1 / 2)) = - 1"
    by (simp add: c_round_def)
  show ?thesis
    using poisson_distribution_huge_one_normal_draw
        [of exact_arithmetic "\<lambda>s. (65 / 128, Suc s)" 4096 "0::nat" "\<lambda>s. (1 / 2, s + 100)"]
      poisson_distribution_huge_one_normal_draw
        [of exact_arithmetic "\<lambda>s. (- 64 - 1 / 256, Suc s)" 4096 "0::nat" "\<lambda>s. (1 / 2, s + 100)"]
      poisson_distribution_huge_one_normal_draw
        [of exact_arithmetic "\<lambda>s. (- 64 - 1 / 128, Suc s)" 4096 "0::nat" "\<lambda>s. (1 / 2, s + 100)"]
    by (simp add: root up zero down exact_cast)
qed

section \<open>The iterative sampler\<close>

text \<open>
  Claim C9. For every \<open>lambda\<close>, in particular every \<open>lambda\<close> in \<open>(0, 1000)\<close>,
  \<open>poisson_itr\<close> takes exactly one uniform draw, ahead of both its loop statements,
  and no other draw: the state it leaves is the state after one uniform draw, and its
  result is a function of \<open>lambda\<close> and the value of that draw only.
\<close>

theorem poisson_itr_one_uniform_draw:
  "snd (poisson_itr U lambda s) = snd (U s) \<and>
   (fst (U s) = fst (U' s') \<longrightarrow> fst (poisson_itr U lambda s) = fst (poisson_itr U' lambda s'))"
  by (simp add: poisson_itr_def split_beta)

theorem poisson_itr_one_uniform_draw_witness:
  "snd (poisson_itr (\<lambda>s::nat. (if s = 0 then 0 else 1 / 2, s + 1)) 1 0) = 1 \<and>
   fst (poisson_itr (\<lambda>s::nat. (if s = 0 then 0 else 1 / 2, s + 1)) 1 0) =
   fst (poisson_itr (\<lambda>s::nat. (0, s + 7)) 1 3)"
  using poisson_itr_one_uniform_draw
    [of "\<lambda>s::nat. (if s = 0 then 0 else 1 / 2, s + 1)" 1 0 "\<lambda>s::nat. (0, s + 7)" 3]
  by simp

section \<open>The batch of four\<close>

text \<open>
  Claim C10. For every \<open>lambda\<close> and every initial state, \<open>rocrand_poisson4\<close> returns
  the four values of four successive single calls of \<open>poisson_distribution\<close> on that
  state with the same \<open>lambda\<close>: the components \<open>x\<close>, \<open>y\<close>, \<open>z\<close>, \<open>w\<close> are the results
  of the first to the fourth call, and the state left is the state after the fourth call,
  so the same draws are taken in the same order. The batch returns if and only if the
  four calls do.
\<close>

theorem rocrand_poisson4_sequential:
  "rocrand_poisson4 M U N lambda state =
     map_option (\<lambda>(as, state'). (Uint4 (as ! 0) (as ! 1) (as ! 2) (as ! 3), state'))
       (sequential_calls (poisson_distribution M U N lambda) 4 state)"
  by (simp add: rocrand_poisson4_def eval_nat_numeral split: option.splits prod.splits)

theorem rocrand_poisson4_sequential_witness:
  "rocrand_poisson4 exact_arithmetic (\<lambda>s::nat. (0, Suc s)) (\<lambda>s. (real s, s + 10)) 10000 0 =
     Some (Uint4 (Inr 10000) (Inr 11000) (Inr 12000) (Inr 13000), 40) \<and>
   sequential_calls
     (poisson_distribution exact_arithmetic (\<lambda>s::nat. (0, Suc s)) (\<lambda>s. (real s, s + 10)) 10000)
     4 0 =
     Some ([Inr 10000, Inr 11000, Inr 12000, Inr 13000], 40)"
proof -
  have root: "sqrt 10000 = 100"
    using real_sqrt_abs [of 100] by simp
  have four: "(4::nat) = Suc (Suc (Suc (Suc 0)))"
    by simp
  have call: "poisson_distribution exact_arithmetic (\<lambda>s::nat. (0, Suc s)) (\<lambda>s. (real s, s + 10))
        10000 s =
      Some (static_cast_uint exact_arithmetic (Finite (c_round (100 * real s + 10000))), s + 10)"
    for s
    by (simp add: poisson_distribution_def lambda_threshold_small_def
        lambda_threshold_huge_def exact_huge root)
  have cast: "static_cast_uint exact_arithmetic (Finite (c_round 10000)) = Inr 10000"
    "static_cast_uint exact_arithmetic (Finite (c_round 11000)) = Inr 11000"
    "static_cast_uint exact_arithmetic (Finite (c_round 12000)) = Inr 12000"
    "static_cast_uint exact_arithmetic (Finite (c_round 13000)) = Inr 13000"
    using c_round_of_int [of 10000] c_round_of_int [of 11000] c_round_of_int [of 12000]
      c_round_of_int [of 13000]
    by (simp_all add: exact_cast)
  have seq: "sequential_calls
     (poisson_distribution exact_arithmetic (\<lambda>s::nat. (0, Suc s)) (\<lambda>s. (real s, s + 10)) 10000)
     4 0 =
     Some ([Inr 10000, Inr 11000, Inr 12000, Inr 13000], 40)"
    unfolding four by (simp add: call cast)
  show ?thesis
    using rocrand_poisson4_sequential
      [of exact_arithmetic "\<lambda>s::nat. (0, Suc s)" "\<lambda>s. (real s, s + 10)" 10000 0]
    by (simp add: seq)
qed

section \<open>Knuth's method\<close>

lemma small_loop_run:
  assumes "\<not> d_lt M limit (running_product M U s k)"
    and "\<forall>i. j < i \<and> i < k \<longrightarrow> d_lt M limit (running_product M U s i)"
    and "j < k"
  shows "small_loop M U limit (of_nat j) (running_product M U s j) (draw_state U s j) =
         Some (of_nat k, draw_state U s k)"
  using assms
proof (induction "k - Suc j" arbitrary: j)
  case 0
  then have k: "k = Suc j" by simp
  with 0 show ?case
    by (subst small_loop.simps) (simp add: Let_def split_beta draw_value_def add.commute)
next
  case (Suc d)
  then have lt: "Suc j < k" and d: "d = k - Suc (Suc j)" by simp_all
  have above: "d_lt M limit (running_product M U s (Suc j))"
    using Suc.prems(2) lt lessI by blast
  have "small_loop M U limit (of_nat (Suc j)) (running_product M U s (Suc j))
          (draw_state U s (Suc j)) = Some (of_nat k, draw_state U s k)"
    using Suc.hyps(1) [OF d Suc.prems(1) _ lt] Suc.prems(2) by simp
  with above show ?case
    by (subst small_loop.simps) (simp add: Let_def split_beta draw_value_def add.commute)
qed

lemma small_loop_counter:
  assumes "first_failure M U s limit k"
  shows "small_loop M U limit 0 (d_in M 1) s = Some (word_of_nat k, draw_state U s k)"
proof -
  from assms have k: "0 < k" and stop: "\<not> d_lt M limit (running_product M U s k)"
    and go: "\<forall>i. 0 < i \<and> i < k \<longrightarrow> d_lt M limit (running_product M U s i)"
    by (auto simp: first_failure_def)
  from small_loop_run [OF stop go k] show ?thesis
    by simp
qed

lemma poisson_distribution_small_run:
  assumes "first_failure M U s (d_exp M (d_neg M (d_in M lambda))) k"
  shows "poisson_distribution_small M U lambda s =
         Some (Inr (word_of_nat (k - 1)), draw_state U s k)"
proof -
  from assms have "1 \<le> k"
    by (simp add: first_failure_def)
  then have "(word_of_nat k :: 32 word) - 1 = word_of_nat (k - 1)"
    by (simp add: of_nat_diff)
  with small_loop_counter [OF assms] show ?thesis
    by (simp add: poisson_distribution_small_def)
qed

text \<open>The loop stops at the first draw whenever the machine's product of 1 and that
  draw does not exceed the machine's \<open>exp (- lambda)\<close>, as at \<open>lambda = 1\<close> when the first
  draw is the double that \<^verbatim>\<open>exp(-1.0)\<close> returns.\<close>

lemma small_stops_at_first_draw:
  assumes "\<not> d_lt M (d_exp M (d_neg M (d_in M lambda)))
             (d_mul M (d_in M 1) (d_in M (fst (U s))))"
  shows "poisson_distribution_small M U lambda s = Some (Inr 0, snd (U s))"
proof -
  have "{1..<1::nat} = {}"
    by simp
  with assms have "first_failure M U s (d_exp M (d_neg M (d_in M lambda))) 1"
    unfolding first_failure_def by (simp add: draw_value_def)
  from poisson_distribution_small_run [OF this] show ?thesis
    by simp
qed

lemma exact_running_product:
  "running_product exact_arithmetic U s n = Finite (\<Prod>i<n. draw_value U s i)"
  by (induction n) simp_all

lemma exact_limit:
  "d_exp exact_arithmetic (d_neg exact_arithmetic (d_in exact_arithmetic lambda)) =
   Finite (exp (- lambda))"
  by simp

lemma first_failure_half:
  "first_failure exact_arithmetic (\<lambda>s. (1 / 2, s)) () (Finite (exp (- 1))) 2"
proof -
  have state: "draw_state (\<lambda>s. (1 / 2 :: real, s)) () i = ()" for i
    by simp
  have "exp (1::real) \<le> 3" by (rule exp_le)
  moreover have "(1::real) + 1 + 1\<^sup>2 / 2 \<le> exp 1" by (rule exp_lower_Taylor_quadratic) simp
  ultimately have "(1 / 2) ^ 2 \<le> exp (- (1::real))" "exp (- (1::real)) < 1 / 2"
    by (simp_all add: exp_minus field_simps power2_eq_square)
  moreover have "{1..<2::nat} = {1}" by auto
  ultimately show ?thesis
    by (simp add: first_failure_def exact_running_product draw_value_def not_less)
qed

lemma exact_stop_at_zero_draw:
  assumes "0 < limit" and "\<forall>j\<le>n. limit < c ^ j"
  shows "first_failure exact_arithmetic (\<lambda>s. (if s < n then c else 0, Suc s)) 0 (Finite limit)
           (Suc n)"
proof -
  let ?U = "\<lambda>s::nat. (if s < n then c else 0 :: real, Suc s)"
  have state: "draw_state ?U 0 i = i" for i
    by (induction i) simp_all
  have val: "draw_value ?U 0 i = (if i < n then c else 0)" for i
    by (simp add: draw_value_def state)
  have prod: "(\<Prod>i<j. draw_value ?U 0 i) = c ^ j" if "j \<le> n" for j
    using that by (simp add: val)
  have last: "(\<Prod>i<Suc n. draw_value ?U 0 i) = 0"
    by (simp add: val)
  have go: "limit < (\<Prod>i<j. draw_value ?U 0 i)" if "j \<in> {1..<Suc n}" for j
    using that assms(2) by (simp add: prod)
  have stop: "\<not> limit < (\<Prod>i<Suc n. draw_value ?U 0 i)"
    unfolding last using assms(1) by simp
  show ?thesis
    unfolding first_failure_def exact_running_product exact_arithmetic_simps x_lt.simps
  proof (intro conjI ballI)
    show "1 \<le> Suc n"
      by simp
    show "\<not> limit < (\<Prod>i<Suc n. draw_value ?U 0 i)"
      by (rule stop)
    show "limit < (\<Prod>i<j. draw_value ?U 0 i)" if "j \<in> {1..<Suc n}" for j
      using that by (rule go)
  qed
qed

lemma power_near_one:
  assumes "0 \<le> x" and "x \<le> 1" and "j \<le> n"
  shows "1 - real n * x \<le> (1 - x) ^ j"
proof -
  have "1 + real j * (- x) \<le> (1 + (- x)) ^ j"
    using assms(2) by (intro Bernoulli_inequality) simp
  moreover have "real j * x \<le> real n * x"
    using assms(1,3) by (intro mult_right_mono) simp_all
  ultimately show ?thesis
    by simp
qed

lemma many_draws_above_limit:
  assumes "n \<le> 4294967296" and "j \<le> n"
  shows "exp (- 1) < (1 - 1 / 2 ^ 53 :: real) ^ j"
proof -
  have "exp (- 1 :: real) < 1 / 2"
    using exp_ge_add_one_self [of "1::real"] exp_gt_zero [of "1::real"]
      exp_lower_Taylor_quadratic [of "1::real"]
    by (simp add: exp_minus field_simps)
  also have "(1 / 2 :: real) \<le> 1 - real n * (1 / 2 ^ 53)"
  proof -
    have "real n \<le> 4294967296"
      using assms(1) by simp
    then have "real n * (1 / 2 ^ 53) \<le> 4294967296 * (1 / 2 ^ 53)"
      by (intro mult_right_mono) simp_all
    then show ?thesis
      by simp
  qed
  also have "\<dots> \<le> (1 - 1 / 2 ^ 53) ^ j"
    using assms(2) by (intro power_near_one) simp_all
  finally show ?thesis .
qed

text \<open>
  Claim C6, as amended. Let \<open>k \<ge> 1\<close> be the number of uniform draws at which the product
  of the draws, as the machine multiplies them, first fails to exceed the machine's
  \<open>exp (- lambda)\<close>. Then \<open>poisson_distribution_small\<close> returns, takes exactly \<open>k\<close> uniform
  draws, and its result is \<open>k - 1\<close> as an \<^verbatim>\<open>unsigned int\<close>, that is \<open>k - 1\<close> reduced
  modulo \<open>2^32\<close>; it is \<open>k - 1\<close> itself when \<open>k \<le> 2^32\<close>. This holds for every
  \<open>lambda\<close>, in particular in \<open>(0, 64)\<close>, for every source of draws and for every
  arithmetic.
\<close>

theorem poisson_distribution_small_returns:
  assumes "first_failure M U s (d_exp M (d_neg M (d_in M lambda))) k"
  shows "poisson_distribution_small M U lambda s =
           Some (Inr (word_of_nat (k - 1)), draw_state U s k) \<and>
         unat (word_of_nat (k - 1) :: 32 word) = (k - 1) mod 2 ^ 32 \<and>
         (k \<le> 2 ^ 32 \<longrightarrow> unat (word_of_nat (k - 1) :: 32 word) = k - 1)"
proof -
  have "k \<le> 2 ^ 32 \<Longrightarrow> (k - 1) mod 2 ^ 32 = k - 1"
    using assms by (simp add: first_failure_def)
  then show ?thesis
    using poisson_distribution_small_run [OF assms] by (simp add: unat_of_nat)
qed

theorem poisson_distribution_small_returns_witness:
  "first_failure exact_arithmetic (\<lambda>s. (1 / 2, s)) ()
     (d_exp exact_arithmetic (d_neg exact_arithmetic (d_in exact_arithmetic 1))) 2 \<and>
   poisson_distribution_small exact_arithmetic (\<lambda>s. (1 / 2, s)) 1 () = Some (Inr 1, ())"
proof -
  have start: "first_failure exact_arithmetic (\<lambda>s. (1 / 2, s)) ()
     (d_exp exact_arithmetic (d_neg exact_arithmetic (d_in exact_arithmetic 1))) 2"
    using first_failure_half by simp
  from poisson_distribution_small_returns [OF start] start show ?thesis
    by simp
qed

text \<open>
  Claim C6 as stated fails when more than \<open>2^32\<close> draws are needed. Let \<open>lambda = 1\<close>, let
  the first \<open>2^32\<close> draws be the double \<open>1 - 2^-53\<close> and the next draw 0. The product
  stays above \<open>1 - 2^-21\<close>, far above \<open>exp (- 1)\<close>, through the first \<open>2^32\<close> draws, in
  exact arithmetic as in binary64, and is 0 after draw number \<open>k = 4294967297\<close>. The
  counter has wrapped around to 1 by then and the sampler returns 0, not
  \<open>k - 1 = 4294967296\<close>.
\<close>

theorem poisson_distribution_small_wraps:
  "first_failure exact_arithmetic
     (\<lambda>s. (if s < 4294967296 then 1 - 1 / 2 ^ 53 else 0, Suc s)) 0
     (d_exp exact_arithmetic (d_neg exact_arithmetic (d_in exact_arithmetic 1))) 4294967297 \<and>
   poisson_distribution_small exact_arithmetic
     (\<lambda>s. (if s < 4294967296 then 1 - 1 / 2 ^ 53 else 0, Suc s)) 1 0 =
     Some (Inr 0, 4294967297) \<and>
   unat (0 :: 32 word) \<noteq> 4294967297 - 1"
proof -
  let ?U = "\<lambda>s::nat. (if s < 4294967296 then 1 - 1 / 2 ^ 53 else 0 :: real, Suc s)"
  have "first_failure exact_arithmetic ?U 0 (Finite (exp (- 1))) (Suc 4294967296)"
  proof (rule exact_stop_at_zero_draw)
    show "(0::real) < exp (- 1)"
      by simp
    show "\<forall>j\<le>4294967296. exp (- 1) < (1 - 1 / 2 ^ 53 :: real) ^ j"
      using many_draws_above_limit [OF order_refl] by blast
  qed
  then have start: "first_failure exact_arithmetic ?U 0
      (d_exp exact_arithmetic (d_neg exact_arithmetic (d_in exact_arithmetic 1))) 4294967297"
    by simp
  have state: "draw_state ?U 0 i = i" for i
    by (induction i) simp_all
  have "(word_of_nat 4294967296 :: 32 word) = 0"
    by (simp add: word_of_nat_eq_0_iff)
  with poisson_distribution_small_run [OF start] start show ?thesis
    by (simp add: state)
qed

section \<open>Atkinson's rejection method\<close>

lemma log_factorial_eq: "log_factorial M n = spec_log_factorial M n"
  by (simp add: log_factorial_def spec_log_factorial_def)

lemma large_body_eq:
  "(let (u, s) = U s;
        x = d_div M (d_sub M (atkinson_alpha M lambda)
              (d_log M (d_div M (d_sub M (d_in M 1) (d_in M u)) (d_in M u))))
              (atkinson_beta M lambda);
        n = d_floor M (d_add M x (d_in M (1 / 2)))
    in if d_lt M n (d_in M 0) then loop s
       else
         let (v, s) = U s;
             y = d_sub M (atkinson_alpha M lambda) (d_mul M (atkinson_beta M lambda) x);
             t = d_add M (d_in M 1) (d_exp M y);
             lhs = d_add M y (d_log M (d_div M (d_in M v) (d_mul M t t)));
             rhs = d_sub M (d_add M (atkinson_k M lambda) (d_mul M n (d_log M (d_in M lambda))))
                     (log_factorial M n)
         in if d_le M lhs rhs then Some (static_cast_uint M n, s) else loop s) =
   (let (u, s1) = U s in
    if d_lt M (atkinson_n M lambda u) (d_in M 0) then loop s1
    else let (v, s2) = U s1 in
      if atkinson_accepts M lambda u v
      then Some (static_cast_uint M (atkinson_n M lambda u), s2)
      else loop s2)"
  by (simp add: Let_def split_beta atkinson_n_def atkinson_x_def atkinson_accepts_def
      log_factorial_eq)

lemma large_loop_step:
  "large_loop M U (atkinson_beta M lambda) (atkinson_alpha M lambda) (atkinson_k M lambda)
     (d_log M (d_in M lambda)) s =
   (let (u, s1) = U s in
    if d_lt M (atkinson_n M lambda u) (d_in M 0)
    then large_loop M U (atkinson_beta M lambda) (atkinson_alpha M lambda) (atkinson_k M lambda)
           (d_log M (d_in M lambda)) s1
    else let (v, s2) = U s1 in
      if atkinson_accepts M lambda u v
      then Some (static_cast_uint M (atkinson_n M lambda u), s2)
      else large_loop M U (atkinson_beta M lambda) (atkinson_alpha M lambda)
             (atkinson_k M lambda) (d_log M (d_in M lambda)) s2)"
  by (subst large_loop.simps) (rule large_body_eq)

lemma large_loop_sound:
  assumes run: "large_loop M U b a k ll s = Some r"
  shows "b = atkinson_beta M lambda \<and> a = atkinson_alpha M lambda \<and> k = atkinson_k M lambda \<and>
         ll = d_log M (d_in M lambda) \<longrightarrow> atkinson_returns M U lambda s r"
proof (rule large_loop.raw_induct [where P = "\<lambda>M U b a k ll s r.
    b = atkinson_beta M lambda \<and> a = atkinson_alpha M lambda \<and> k = atkinson_k M lambda \<and>
    ll = d_log M (d_in M lambda) \<longrightarrow> atkinson_returns M U lambda s r", OF _ run], goal_cases)
  case (1 loop M U b a k ll s r)
  show ?case
  proof
    assume params: "b = atkinson_beta M lambda \<and> a = atkinson_alpha M lambda \<and>
      k = atkinson_k M lambda \<and> ll = d_log M (d_in M lambda)"
    obtain u s1 where u: "U s = (u, s1)"
      by (cases "U s")
    obtain v s2 where v: "U s1 = (v, s2)"
      by (cases "U s1")
    from params have eqs: "b = atkinson_beta M lambda" "a = atkinson_alpha M lambda"
      "k = atkinson_k M lambda" "ll = d_log M (d_in M lambda)"
      by simp_all
    have IH: "atkinson_returns M U lambda s' r'"
      if "loop M U (atkinson_beta M lambda) (atkinson_alpha M lambda) (atkinson_k M lambda)
            (d_log M (d_in M lambda)) s' = Some r'" for s' r'
      using 1(1) [OF that] by simp
    have body: "(if d_lt M (atkinson_n M lambda u) (d_in M 0)
        then loop M U (atkinson_beta M lambda) (atkinson_alpha M lambda) (atkinson_k M lambda)
               (d_log M (d_in M lambda)) s1
        else if atkinson_accepts M lambda u v
          then Some (static_cast_uint M (atkinson_n M lambda u), s2)
          else loop M U (atkinson_beta M lambda) (atkinson_alpha M lambda) (atkinson_k M lambda)
                 (d_log M (d_in M lambda)) s2) = Some r"
      using 1(2) unfolding eqs large_body_eq by (auto simp: u v Let_def split: if_splits)
    show "atkinson_returns M U lambda s r"
    proof (cases "d_lt M (atkinson_n M lambda u) (d_in M 0)")
      case True
      with body have "atkinson_returns M U lambda s1 r"
        by (simp add: IH)
      with u True show ?thesis
        by (rule atkinson_returns.restart)
    next
      case False
      show ?thesis
      proof (cases "atkinson_accepts M lambda u v")
        case True
        with body False have "r = (static_cast_uint M (atkinson_n M lambda u), s2)"
          by simp
        with u False v True show ?thesis
          by (simp add: atkinson_returns.accept)
      next
        case reject: False
        with body False have "atkinson_returns M U lambda s2 r"
          by (simp add: IH)
        with u False v reject show ?thesis
          by (rule atkinson_returns.reject)
      qed
    qed
  qed
qed

lemma large_loop_complete:
  assumes "atkinson_returns M U lambda s r"
  shows "large_loop M U (atkinson_beta M lambda) (atkinson_alpha M lambda) (atkinson_k M lambda)
           (d_log M (d_in M lambda)) s = Some r"
  using assms
proof induction
  case (restart s u s1 r)
  then show ?case
    by (subst large_loop_step) simp
next
  case (accept s u s1 v s2)
  then show ?case
    by (subst large_loop_step) simp
next
  case (reject s u s1 v s2 r)
  then show ?case
    by (subst large_loop_step) simp
qed

lemma poisson_distribution_large_unfold:
  "poisson_distribution_large M U lambda s =
   large_loop M U (atkinson_beta M lambda) (atkinson_alpha M lambda) (atkinson_k M lambda)
     (d_log M (d_in M lambda)) s"
  by (simp add: poisson_distribution_large_def Let_def atkinson_beta_def atkinson_alpha_def
      atkinson_k_def atkinson_c_def)

lemma exact_beta: "atkinson_beta exact_arithmetic 64 = Finite (pi / sqrt 192)"
  by (simp add: atkinson_beta_def)

lemma exact_beta_bounds: "0 < pi / sqrt 192" "pi / sqrt 192 \<le> 1"
proof -
  show "0 < pi / sqrt 192"
    by simp
  have "(4::real) \<le> sqrt 192"
    by (rule real_le_rsqrt) simp
  with pi_less_4 show "pi / sqrt 192 \<le> 1"
    by simp
qed

lemma exact_alpha: "atkinson_alpha exact_arithmetic 64 = Finite (pi / sqrt 192 * 64)"
  by (simp add: atkinson_alpha_def exact_beta)

lemma exact_k:
  "atkinson_k exact_arithmetic 64 =
   Finite (ln (767 / 1000 - 336 / 100 / 64) - 64 - ln (pi / sqrt 192))"
proof -
  have "atkinson_c exact_arithmetic 64 = Finite (767 / 1000 - 336 / 100 / 64)"
    by (simp add: atkinson_c_def x_sub_def)
  then show ?thesis
    using exact_beta_bounds(1) by (simp add: atkinson_k_def exact_beta x_sub_def)
qed

lemma exact_x_half: "atkinson_x exact_arithmetic 64 (1 / 2) = Finite 64"
  using exact_beta_bounds(1) by (simp add: atkinson_x_def exact_alpha exact_beta x_sub_def)

lemma exact_n_half: "atkinson_n exact_arithmetic 64 (1 / 2) = Finite 64"
proof -
  have "\<lfloor>64 + 1 / 2 :: real\<rfloor> = 64"
    by linarith
  then show ?thesis
    by (simp add: atkinson_n_def exact_x_half)
qed

lemma exact_n_zero: "atkinson_n exact_arithmetic 64 0 = NegInf"
  using exact_beta_bounds(1)
  by (simp add: atkinson_n_def atkinson_x_def exact_alpha exact_beta x_sub_def)

lemma exact_rhs_bound:
  "- 65 \<le> ln (767 / 1000 - 336 / 100 / 64) - 64 - ln (pi / sqrt 192) + 64 * ln 64
            - ln (fact 64 :: real)"
proof -
  have e_lower: "2 \<le> exp (1::real)"
    using exp_ge_add_one_self [of "1::real"] by simp
  have "exp (- 1) \<le> (767 / 1000 - 336 / 100 / 64 :: real)"
    using e_lower by (simp add: exp_minus field_simps)
  then have c: "- 1 \<le> ln (767 / 1000 - 336 / 100 / 64 :: real)"
    by (simp add: ln_ge_iff)
  have beta: "ln (pi / sqrt 192) \<le> 0"
    using exact_beta_bounds by simp
  have "(fact 64 :: real) \<le> 64 ^ 64"
    using fact_le_power [of 64, where 'a = real] by simp
  then have "ln (fact 64 :: real) \<le> ln (64 ^ 64)"
    by (subst ln_le_cancel_iff) simp_all
  also have "\<dots> = 64 * ln 64"
    using ln_realpow [of "64::real" 64] by simp
  finally have "ln (fact 64 :: real) \<le> 64 * ln 64" .
  with c beta show ?thesis
    by linarith
qed

lemma exact_lhs_bound: "ln (1 / 2 ^ 200 / (2 * 2) :: real) \<le> - 65"
proof -
  have "exp (65::real) = exp 1 ^ 65"
    using exp_of_nat_mult [of 65 "1::real"] by simp
  also have "\<dots> \<le> 3 ^ 65"
    using exp_le by (intro power_mono) simp_all
  also have "\<dots> \<le> (2::real) ^ 202"
    by simp
  finally have "1 / 2 ^ 202 \<le> exp (- (65::real))"
    by (simp add: exp_minus field_simps)
  then have "ln (1 / 2 ^ 202 :: real) \<le> ln (exp (- 65))"
    by (subst ln_le_cancel_iff) simp_all
  then show ?thesis
    by simp
qed

lemma exact_rhs:
  "d_sub exact_arithmetic
     (d_add exact_arithmetic (atkinson_k exact_arithmetic 64)
        (d_mul exact_arithmetic (atkinson_n exact_arithmetic 64 (1 / 2))
           (d_log exact_arithmetic (d_in exact_arithmetic 64))))
     (spec_log_factorial exact_arithmetic (atkinson_n exact_arithmetic 64 (1 / 2))) =
   Finite (ln (767 / 1000 - 336 / 100 / 64) - 64 - ln (pi / sqrt 192) + 64 * ln 64
            - ln (fact 64))"
  by (simp add: exact_k exact_n_half spec_log_factorial_def x_sub_def)

lemma exact_y_half:
  "d_sub exact_arithmetic (atkinson_alpha exact_arithmetic 64)
     (d_mul exact_arithmetic (atkinson_beta exact_arithmetic 64)
        (atkinson_x exact_arithmetic 64 (1 / 2))) = Finite 0"
  by (simp add: exact_alpha exact_beta exact_x_half x_sub_def)

lemma exact_accepts_tiny: "atkinson_accepts exact_arithmetic 64 (1 / 2) (1 / 2 ^ 200)"
proof -
  have "x_le (Finite (ln (1 / 2 ^ 200 / (2 * 2))))
      (Finite (ln (767 / 1000 - 336 / 100 / 64) - 64 - ln (pi / sqrt 192) + 64 * ln 64
            - ln (fact 64)))"
    using exact_lhs_bound exact_rhs_bound by simp
  then show ?thesis
    unfolding atkinson_accepts_def Let_def exact_y_half exact_rhs
    by simp
qed

lemma exact_accepts_zero: "atkinson_accepts exact_arithmetic 64 (1 / 2) 0"
  unfolding atkinson_accepts_def Let_def exact_y_half exact_rhs
  by simp

lemma exact_cast_64: "static_cast_uint exact_arithmetic (Finite 64) = Inr 64"
  using exact_cast_in_range [of 64] by simp

text \<open>
  Claim C5. \<open>poisson_distribution_large\<close> computes \<open>c = 0.767 - 3.36 / lambda\<close>,
  \<open>beta = pi / sqrt (3 * lambda)\<close>, \<open>alpha = beta * lambda\<close>,
  \<open>k = log c - lambda - log beta\<close> and \<open>log lambda\<close> once, and then iterates: it draws
  \<open>u\<close>, forms \<open>x = (alpha - log ((1 - u) / u)) / beta\<close> and \<open>n = floor (x + 0.5)\<close>; if
  \<open>n < 0\<close> it starts over without a second draw; otherwise it draws \<open>v\<close>, sets
  \<open>y = alpha - beta * x\<close> and \<open>t = 1 + exp y\<close>, and returns \<open>n\<close> converted to
  \<^verbatim>\<open>unsigned int\<close> if and only if
  \<open>y + log (v / t\<^sup>2) \<le> k + n * log lambda - log_factorial n\<close>, where \<open>log_factorial n\<close>
  is 0 for \<open>n \<le> 1\<close> and \<open>lgamma (n + 1)\<close> otherwise. The relation \<open>atkinson_returns\<close>
  is this description, every operation being the machine's; the sampler returns a result
  from a state exactly when the description yields it. This holds for every \<open>lambda\<close>,
  in particular in \<open>[64, 4000]\<close>, for every source of draws and for every arithmetic.

  The examples are three runs at \<open>lambda = 64\<close>. With the draws \<open>1 / 2\<close> and \<open>2^-200\<close> the
  candidate 64 is accepted after two draws. After a first draw 0 the quotient
  \<open>(1 - u) / u\<close> is infinite, \<open>n\<close> is minus infinity and the iteration starts over after
  that one draw, so the same two draws then give 64 after three draws. With the draws
  \<open>1 / 2\<close> and 0 the logarithm of \<open>v / t\<^sup>2\<close> is minus infinity and 64 is accepted.
\<close>

theorem poisson_distribution_large_refines:
  "poisson_distribution_large M U lambda s = Some r \<longleftrightarrow>
   atkinson_returns M U lambda s r"
  unfolding poisson_distribution_large_unfold
  using large_loop_sound [of M U _ _ _ _ s r lambda]
    large_loop_complete [of M U lambda s r]
  by blast

theorem poisson_distribution_large_refines_witness:
  "poisson_distribution_large exact_arithmetic
     (\<lambda>s::nat. (if s = 0 then 1 / 2 else 1 / 2 ^ 200, Suc s)) 64 0 = Some (Inr 64, 2) \<and>
   poisson_distribution_large exact_arithmetic
     (\<lambda>s::nat. (if s = 0 then 0 else if s = 1 then 1 / 2 else 1 / 2 ^ 200, Suc s)) 64 0 =
     Some (Inr 64, 3) \<and>
   poisson_distribution_large exact_arithmetic
     (\<lambda>s::nat. (if s = 0 then 1 / 2 else 0, Suc s)) 64 0 = Some (Inr 64, 2)"
proof -
  let ?U1 = "\<lambda>s::nat. (if s = 0 then 1 / 2 else 1 / 2 ^ 200 :: real, Suc s)"
  let ?U2 = "\<lambda>s::nat. (if s = 0 then 0 else if s = 1 then 1 / 2 else 1 / 2 ^ 200 :: real, Suc s)"
  let ?U3 = "\<lambda>s::nat. (if s = 0 then 1 / 2 else 0 :: real, Suc s)"
  have positive: "\<not> d_lt exact_arithmetic (atkinson_n exact_arithmetic 64 (1 / 2))
      (d_in exact_arithmetic 0)"
    by (simp add: exact_n_half)
  have negative: "d_lt exact_arithmetic (atkinson_n exact_arithmetic 64 0)
      (d_in exact_arithmetic 0)"
    by (simp add: exact_n_zero)
  have run1: "atkinson_returns exact_arithmetic ?U1 64 0
      (static_cast_uint exact_arithmetic (atkinson_n exact_arithmetic 64 (1 / 2)), 2)"
  proof (rule atkinson_returns.accept [where ?s1.0 = 1 and v = "1 / 2 ^ 200"])
    show "?U1 0 = (1 / 2, 1)" by simp
    show "?U1 1 = (1 / 2 ^ 200, 2)" by simp
  qed (rule positive, rule exact_accepts_tiny)
  have "atkinson_returns exact_arithmetic ?U2 64 1
      (static_cast_uint exact_arithmetic (atkinson_n exact_arithmetic 64 (1 / 2)), 3)"
  proof (rule atkinson_returns.accept [where ?s1.0 = 2 and v = "1 / 2 ^ 200"])
    show "?U2 1 = (1 / 2, 2)" by simp
    show "?U2 2 = (1 / 2 ^ 200, 3)" by simp
  qed (rule positive, rule exact_accepts_tiny)
  with _ negative
  have run2: "atkinson_returns exact_arithmetic ?U2 64 0
      (static_cast_uint exact_arithmetic (atkinson_n exact_arithmetic 64 (1 / 2)), 3)"
    by (rule atkinson_returns.restart) simp
  have run3: "atkinson_returns exact_arithmetic ?U3 64 0
      (static_cast_uint exact_arithmetic (atkinson_n exact_arithmetic 64 (1 / 2)), 2)"
  proof (rule atkinson_returns.accept [where ?s1.0 = 1 and v = 0])
    show "?U3 0 = (1 / 2, 1)" by simp
    show "?U3 1 = (0, 2)" by simp
  qed (rule positive, rule exact_accepts_zero)
  from run1 run2 run3 show ?thesis
    unfolding poisson_distribution_large_refines exact_n_half exact_cast_64 by simp
qed

section \<open>The passes of the iterative sampler\<close>

text \<open>Inside the inner loop \<open>x\<close> and \<open>y\<close> are a term and a partial sum of the exponential
  series of \<open>lambda\<close>, both scaled by the product \<open>c\<close> of the factors \<open>L\<close> folded in so
  far. The partial sums stay below \<open>exp lambda\<close>, so the loop cannot exit while
  \<open>c * exp lambda < u\<close>.\<close>

lemma exp_partial_sum_le:
  assumes "0 \<le> (l::real)"
  shows "(\<Sum>j\<le>n. l ^ j / fact j) \<le> exp l"
proof -
  have "(\<Sum>j\<le>n. l ^ j /\<^sub>R fact j) \<le> (\<Sum>j. l ^ j /\<^sub>R fact j)"
    using assms by (intro sum_le_suminf summable_exp_generic) simp_all
  then show ?thesis
    by (simp add: exp_def divide_inverse mult.commute)
qed

lemma itr_inner_error: "itr_inner u lambda k x y = Inl e \<Longrightarrow> e = SignedOverflow"
proof (induction u lambda k x y rule: itr_inner.induct)
  case (1 u lambda k x y)
  show ?case
  proof (cases "u > y")
    case False
    with "1.prems" show ?thesis
      by (simp add: itr_inner_exit)
  next
    case True
    show ?thesis
    proof (cases "INT_MAX \<le> k")
      case True
      with \<open>u > y\<close> have "itr_inner u lambda k x y = Inl SignedOverflow"
        by (subst itr_inner.simps) simp
      with "1.prems" show ?thesis
        by simp
    next
      case False
      let ?x = "x * (lambda / real_of_int (k + 1))"
      from True False have "itr_inner u lambda k x y = itr_inner u lambda (k + 1) ?x (y + ?x)"
        by (subst itr_inner.simps) (simp add: Let_def)
      with "1.prems" have "itr_inner u lambda (k + 1) ?x (y + ?x) = Inl e"
        by simp
      with "1.IH" [OF True False refl refl refl] show ?thesis
        by simp
    qed
  qed
qed

lemma itr_inner_invariant:
  assumes "itr_inner u lambda k x y = Inr (k', x', y')"
    and "0 \<le> k" and "k \<le> INT_MAX"
    and "x = c * lambda ^ nat k / fact (nat k)"
    and "y = c * (\<Sum>j\<le>nat k. lambda ^ j / fact j)"
  shows "0 \<le> k' \<and> k' \<le> INT_MAX \<and> x' = c * lambda ^ nat k' / fact (nat k') \<and>
         y' = c * (\<Sum>j\<le>nat k'. lambda ^ j / fact j)"
  using assms
proof (induction u lambda k x y rule: itr_inner.induct)
  case (1 u lambda k x y)
  show ?case
  proof (cases "u > y")
    case False
    with "1.prems"(1) have "k' = k" "x' = x" "y' = y"
      by (simp_all add: itr_inner_exit)
    with "1.prems"(2-5) show ?thesis
      by simp
  next
    case True
    with "1.prems"(1) have small: "k < INT_MAX"
      by (subst (asm) itr_inner.simps) (simp split: if_splits)
    let ?x = "x * (lambda / real_of_int (k + 1))"
    from True small "1.prems"(1) have run: "itr_inner u lambda (k + 1) ?x (y + ?x) = Inr (k', x', y')"
      by (subst (asm) itr_inner.simps) (simp add: Let_def)
    have suc: "nat (k + 1) = Suc (nat k)"
      using "1.prems"(2) by simp
    have of: "real_of_int (k + 1) = real (Suc (nat k))"
      using "1.prems"(2) by simp
    have x: "?x = c * lambda ^ nat (k + 1) / fact (nat (k + 1))"
      unfolding suc of "1.prems"(4) by (simp add: mult.commute)
    have y: "y + ?x = c * (\<Sum>j\<le>nat (k + 1). lambda ^ j / fact j)"
      unfolding x unfolding suc "1.prems"(5) by (simp add: distrib_left)
    show ?thesis
      using "1.IH" [OF True _ refl refl refl run _ _ x y] small "1.prems"(2) by simp
  qed
qed

lemma itr_inner_overflows:
  assumes "0 \<le> k" and "k \<le> INT_MAX" and "0 \<le> lambda" and "0 \<le> c" and "c * exp lambda < u"
    and "x = c * lambda ^ nat k / fact (nat k)"
    and "y = c * (\<Sum>j\<le>nat k. lambda ^ j / fact j)"
  shows "itr_inner u lambda k x y = Inl SignedOverflow"
  using assms
proof (induction u lambda k x y rule: itr_inner.induct)
  case (1 u lambda k x y)
  have "y \<le> c * exp lambda"
    unfolding "1.prems"(7) using "1.prems"(3,4) by (intro mult_left_mono exp_partial_sum_le)
  with "1.prems"(5) have True: "u > y"
    by simp
  show ?case
  proof (cases "INT_MAX \<le> k")
    case True
    with \<open>u > y\<close> show ?thesis
      by (subst itr_inner.simps) simp
  next
    case False
    let ?x = "x * (lambda / real_of_int (k + 1))"
    have suc: "nat (k + 1) = Suc (nat k)"
      using "1.prems"(1) by simp
    have of: "real_of_int (k + 1) = real (Suc (nat k))"
      using "1.prems"(1) by simp
    have x: "?x = c * lambda ^ nat (k + 1) / fact (nat (k + 1))"
      unfolding suc of "1.prems"(6) by (simp add: mult.commute)
    have y: "y + ?x = c * (\<Sum>j\<le>nat (k + 1). lambda ^ j / fact j)"
      unfolding x unfolding suc "1.prems"(7) by (simp add: distrib_left)
    have "itr_inner u lambda (k + 1) ?x (y + ?x) = Inl SignedOverflow"
      using "1.IH" [OF True _ refl refl refl _ _ "1.prems"(3,4,5) x y] False "1.prems"(1) by simp
    with True False show ?thesis
      by (subst itr_inner.simps) (simp add: Let_def)
  qed
qed

lemma itr_body_unfold:
  assumes "pow \<le> INT_MAX - 500"
  shows "itr_body u lambda upow ex x y k pow =
    (case itr_inner u lambda k
            (x * (if lambda > upow then ex else exp (real_of_int pow - lambda)))
            (y * (if lambda > upow then ex else exp (real_of_int pow - lambda))) of
       Inl e \<Rightarrow> Inl e
     | Inr (k', x', y') \<Rightarrow>
         Inr (if lambda > upow then ex else exp (real_of_int pow - lambda), x', y', k', pow + 500))"
  using assms by (simp add: itr_body_def Let_def)

lemma poisson_itr_overflows:
  assumes "500 < lambda" and "lambda < 1000" and "exp (lambda - 1000) < fst (U s)"
  shows "poisson_itr U lambda s = (Inl SignedOverflow, snd (U s))"
proof -
  define u where "u = fst (U s)"
  define ex :: real where "ex = exp (- 500)"
  have bound: "(0::int) \<le> INT_MAX - 500" "(500::int) \<le> INT_MAX - 500" "(0::int) \<le> INT_MAX"
    by (simp_all add: INT_MAX_def)
  have first: "itr_body u lambda 500 ex 1 1 0 0 =
      (case itr_inner u lambda 0 ex ex of
         Inl e \<Rightarrow> Inl e
       | Inr (k', x', y') \<Rightarrow> Inr (ex, x', y', k', 500))"
    using assms(1) by (simp add: itr_body_unfold [OF bound(1)] cong: sum.case_cong)
  have "itr_outer u lambda 500 ex 1 1 0 0 = Inl SignedOverflow"
  proof (cases "itr_inner u lambda 0 ex ex")
    case (Inl e)
    then have "e = SignedOverflow"
      by (rule itr_inner_error)
    with Inl first show ?thesis
      by (subst itr_outer.simps) simp
  next
    case (Inr r)
    obtain k1 x1 y1 where r: "r = (k1, x1, y1)"
      by (cases r)
    from Inr r have run: "itr_inner u lambda 0 ex ex = Inr (k1, x1, y1)"
      by simp
    from itr_inner_invariant [OF run, of ex] bound(3)
    have inv: "0 \<le> k1" "k1 \<le> INT_MAX" "x1 = ex * lambda ^ nat k1 / fact (nat k1)"
      "y1 = ex * (\<Sum>j\<le>nat k1. lambda ^ j / fact j)"
      by simp_all
    have "ex * ex * exp lambda = exp (lambda - 1000)"
      by (simp add: ex_def exp_add [symmetric])
    with assms(3) have below: "ex * ex * exp lambda < u"
      by (simp add: u_def)
    have "itr_inner u lambda k1 (x1 * ex) (y1 * ex) = Inl SignedOverflow"
      using inv(1,2) _ _ below
    proof (rule itr_inner_overflows)
      show "0 \<le> lambda" using assms(1) by simp
      show "0 \<le> ex * ex" by simp
      show "x1 * ex = ex * ex * lambda ^ nat k1 / fact (nat k1)"
        by (simp add: inv(3))
      show "y1 * ex = ex * ex * (\<Sum>j\<le>nat k1. lambda ^ j / fact j)"
        by (simp add: inv(4))
    qed
    then have second: "itr_body u lambda 500 ex x1 y1 k1 500 = Inl SignedOverflow"
      using assms(1) by (simp add: itr_body_unfold [OF bound(2)])
    have "itr_outer u lambda 500 ex 1 1 0 0 = itr_outer u lambda 500 ex x1 y1 k1 500"
      using first run assms(1) by (subst itr_outer.simps) simp
    also have "\<dots> = Inl SignedOverflow"
      using second by (subst itr_outer.simps) simp
    finally show ?thesis .
  qed
  then show ?thesis
    by (simp add: poisson_itr_def split_beta u_def ex_def)
qed

text \<open>
  Claim C3 has it that on every pass of the outer loop \<open>L\<close> is the precomputed
  \<open>exp (- 500)\<close> when \<open>pow + 500 \<le> lambda\<close> and \<open>exp (pow - lambda)\<close> when
  \<open>pow + 500 > lambda\<close>, that \<open>L\<close> is multiplied into \<open>x\<close> and \<open>y\<close>, and that \<open>pow\<close> then
  advances by 500. The source compares \<open>lambda\<close> with \<open>upow\<close>, which is \<open>pow + 500\<close> for
  the initial \<open>pow = 0\<close> and is not advanced with \<open>pow\<close> (lemma \<open>itr_body_unfold\<close>). At
  \<open>lambda = 700\<close> with the uniform draw 0 the run has two passes. On the second one
  \<open>pow = 500\<close> and \<open>pow + 500 > lambda\<close>, so the claim gives \<open>L = exp (500 - 700)\<close>; the
  source takes \<open>L = exp (- 500)\<close> again, and \<open>x\<close> and \<open>y\<close> are scaled by \<open>exp (- 1000)\<close> in
  all.
\<close>

theorem poisson_itr_second_chunk_factor:
  "itr_body 0 700 (real_of_int 0 + 500) (exp (- 500)) 1 1 0 0 =
     Inr (exp (- 500), exp (- 500), exp (- 500), 0, 500) \<and>
   real_of_int 500 < 700 \<and> real_of_int 500 + 500 > 700 \<and>
   itr_body 0 700 (real_of_int 0 + 500) (exp (- 500)) (exp (- 500)) (exp (- 500)) 0 500 =
     Inr (exp (- 500), exp (- 500) * exp (- 500), exp (- 500) * exp (- 500), 0, 1000) \<and>
   exp (- 500) \<noteq> exp (real_of_int 500 - 700) \<and>
   poisson_itr (\<lambda>s. (0, s)) 700 () = (Inr 0, ())"
proof -
  have bound: "(0::int) \<le> INT_MAX - 500" "(500::int) \<le> INT_MAX - 500"
    by (simp_all add: INT_MAX_def)
  have first: "itr_body 0 700 500 (exp (- 500)) 1 1 0 0 =
     Inr (exp (- 500), exp (- 500), exp (- 500), 0, 500)"
    by (simp add: itr_body_unfold [OF bound(1)] itr_inner_exit not_less less_eq_real_def)
  have second: "itr_body 0 700 500 (exp (- 500)) (exp (- 500)) (exp (- 500)) 0 500 =
     Inr (exp (- 500), exp (- 500) * exp (- 500), exp (- 500) * exp (- 500), 0, 1000)"
    by (simp add: itr_body_unfold [OF bound(2)] itr_inner_exit not_less less_eq_real_def)
  have "itr_outer 0 700 500 (exp (- 500)) 1 1 0 0 =
        itr_outer 0 700 500 (exp (- 500)) (exp (- 500)) (exp (- 500)) 0 500"
    by (subst itr_outer.simps) (simp add: first)
  also have "\<dots> = Inr 0"
    by (subst itr_outer.simps) (simp add: second)
  finally have "poisson_itr (\<lambda>s. (0, s)) 700 () = (Inr 0, ())"
    by (simp add: poisson_itr_def)
  with first second show ?thesis
    by simp
qed

text \<open>
  Claim C4 has it that \<open>poisson_itr\<close> returns for every \<open>lambda\<close> in \<open>(0, 1000)\<close> and
  every uniform draw in \<open>[0, 1)\<close>. At \<open>lambda = 700\<close> with the uniform draw \<open>1 / 2\<close> the
  second pass scales \<open>y\<close> by \<open>exp (- 500)\<close> a second time; from then on \<open>y\<close> stays below
  \<open>exp (- 300) < 1 / 2\<close>, the inner loop never exits, and the run ends only when the
  increment of the \<^verbatim>\<open>int\<close> counter \<open>k\<close> overflows. The same holds for every \<open>lambda\<close> in
  \<open>(500, 1000)\<close> and every draw above \<open>exp (lambda - 1000)\<close> (lemma
  \<open>poisson_itr_overflows\<close>).
\<close>

theorem poisson_itr_does_not_return:
  "poisson_itr (\<lambda>s. (1 / 2, s)) 700 () = (Inl SignedOverflow, ())"
proof -
  have "exp (300::real) \<ge> 1 + 300"
    by (rule exp_ge_add_one_self)
  then have "exp (- 300 :: real) < 1 / 2"
    by (simp add: exp_minus field_simps)
  then show ?thesis
    using poisson_itr_overflows [of 700 "\<lambda>s. (1 / 2, s)" "()"] by simp
qed

section \<open>Conversions to unsigned\<close>

















end
